theory Spec2Isabelle
  imports Complex_Main "HOL-Library.Char_ord" "HOL-Library.List_Lexorder"
    "HOL-Library.Extended_Nat" "HOL-Library.Sublist"
begin

section \<open>Python strings\<close>

text \<open>
  A Python \<open>str\<close> is modelled by a \<^typ>\<open>string\<close>; a \<^typ>\<open>char\<close> stands for the code
  point of the same number, so the model covers the text whose code points lie in
  U+0000 .. U+00FF. The character classes below are Python's on that range.
  Strings are compared as Python compares them: lexicographically by code point.
\<close>

definition isspace_chr :: "char \<Rightarrow> bool" where
  \<comment> \<open>\<open>str.isspace\<close> on one character, also the class \<open>\s\<close> of \<open>re\<close>\<close>
  "isspace_chr c =
     (let n = (of_char c :: nat)
      in (9 \<le> n \<and> n \<le> 13) \<or> (28 \<le> n \<and> n \<le> 32) \<or> n = 133 \<or> n = 160)"

definition isdigit_chr :: "char \<Rightarrow> bool" where
  \<comment> \<open>\<open>str.isdigit\<close> on one character: the decimal digits and the superscripts
      U+00B2, U+00B3, U+00B9\<close>
  "isdigit_chr c =
     (let n = (of_char c :: nat)
      in (48 \<le> n \<and> n \<le> 57) \<or> n = 178 \<or> n = 179 \<or> n = 185)"

definition isdigit :: "string \<Rightarrow> bool" where
  \<comment> \<open>\<open>s.isdigit()\<close>: false on the empty string\<close>
  "isdigit s = (s \<noteq> [] \<and> list_all isdigit_chr s)"

definition ascii_digit :: "char \<Rightarrow> bool" where
  "ascii_digit c = (let n = (of_char c :: nat) in 48 \<le> n \<and> n \<le> 57)"

definition ascii_lower :: "char \<Rightarrow> bool" where
  "ascii_lower c = (let n = (of_char c :: nat) in 97 \<le> n \<and> n \<le> 122)"

definition ascii_upper :: "char \<Rightarrow> bool" where
  "ascii_upper c = (let n = (of_char c :: nat) in 65 \<le> n \<and> n \<le> 90)"

definition alnum_class :: "char \<Rightarrow> bool" where
  \<comment> \<open>the regular expression class \<open>[a-zA-Z0-9]\<close>\<close>
  "alnum_class c = (ascii_lower c \<or> ascii_upper c \<or> ascii_digit c)"

definition lower_chr :: "char \<Rightarrow> char" where
  "lower_chr c =
     (let n = (of_char c :: nat)
      in if (65 \<le> n \<and> n \<le> 90) \<or> (192 \<le> n \<and> n \<le> 222 \<and> n \<noteq> 215)
         then char_of (n + 32) else c)"

definition lower :: "string \<Rightarrow> string" where
  "lower s = map lower_chr s"

definition upper_chr :: "char \<Rightarrow> string" where
  \<comment> \<open>U+00DF becomes \<open>SS\<close>. The upper-case forms of U+00B5 and U+00FF lie outside the
      modelled range; these two characters are left as they are.\<close>
  "upper_chr c =
     (let n = (of_char c :: nat)
      in if (97 \<le> n \<and> n \<le> 122) \<or> (224 \<le> n \<and> n \<le> 254 \<and> n \<noteq> 247)
         then [char_of (n - 32)]
         else if n = 223 then ''SS'' else [c])"

definition upper :: "string \<Rightarrow> string" where
  "upper s = concat (map upper_chr s)"

definition strip_with :: "(char \<Rightarrow> bool) \<Rightarrow> string \<Rightarrow> string" where
  "strip_with P s = dropWhile P (rev (dropWhile P (rev s)))"

definition strip :: "string \<Rightarrow> string" where
  \<comment> \<open>\<open>s.strip()\<close>\<close>
  "strip s = strip_with isspace_chr s"

definition strip_underscore :: "string \<Rightarrow> string" where
  \<comment> \<open>\<open>s.strip('_')\<close>\<close>
  "strip_underscore s = strip_with (\<lambda>c. c = CHR ''_'') s"

definition first_line :: "string \<Rightarrow> string" where
  \<comment> \<open>\<open>s.split('\n')[0]\<close>\<close>
  "first_line s = takeWhile (\<lambda>c. c \<noteq> CHR 0x0A) s"

definition zfill :: "nat \<Rightarrow> string \<Rightarrow> string" where
  \<comment> \<open>\<open>s.zfill(w)\<close>: the zeros go after a leading sign\<close>
  "zfill w s =
     (if w \<le> length s then s
      else (case s of
              [] \<Rightarrow> replicate w (CHR ''0'')
            | c # r \<Rightarrow>
                if c = CHR ''+'' \<or> c = CHR ''-''
                then c # replicate (w - length s) (CHR ''0'') @ r
                else replicate (w - length s) (CHR ''0'') @ s))"

definition digit_chr :: "nat \<Rightarrow> char" where
  \<comment> \<open>the decimal digit of \<open>n < 10\<close>\<close>
  "digit_chr n = ''0123456789'' ! n"

function str_nat :: "nat \<Rightarrow> string" where
  "str_nat n = (if n < 10 then [digit_chr n] else str_nat (n div 10) @ [digit_chr (n mod 10)])"
  by pat_completeness auto
termination
  by (relation "measure id") auto

definition str_int :: "int \<Rightarrow> string" where
  \<comment> \<open>\<open>str(i)\<close> of a Python int\<close>
  "str_int i = (if i < 0 then CHR ''-'' # str_nat (nat (- i)) else str_nat (nat i))"

function sub_non_alnum :: "string \<Rightarrow> string" where
  \<comment> \<open>\<open>re.sub(r'[^a-zA-Z0-9]+', '_', s)\<close>: every maximal run becomes one underscore\<close>
  "sub_non_alnum [] = []"
| "sub_non_alnum (c # s) =
     (if alnum_class c then c # sub_non_alnum s
      else CHR ''_'' # sub_non_alnum (dropWhile (\<lambda>x. \<not> alnum_class x) s))"
  by pat_completeness auto
termination
  by (relation "measure length") (auto simp: le_imp_less_Suc length_dropWhile_le)

function sub_underscores :: "string \<Rightarrow> string" where
  \<comment> \<open>\<open>re.sub(r'_+', '_', s)\<close>\<close>
  "sub_underscores [] = []"
| "sub_underscores (c # s) =
     (if c = CHR ''_'' then CHR ''_'' # sub_underscores (dropWhile (\<lambda>x. x = CHR ''_'') s)
      else c # sub_underscores s)"
  by pat_completeness auto
termination
  by (relation "measure length") (auto simp: le_imp_less_Suc length_dropWhile_le)

definition sub_c_prefix :: "string \<Rightarrow> string" where
  \<comment> \<open>\<open>re.sub(r'^c\s*-\s*', '', s)\<close>\<close>
  "sub_c_prefix s =
     (case s of
        [] \<Rightarrow> s
      | c # r \<Rightarrow>
          if c = CHR ''c''
          then (case dropWhile isspace_chr r of
                  [] \<Rightarrow> s
                | d # r' \<Rightarrow> if d = CHR ''-'' then dropWhile isspace_chr r' else s)
          else s)"

section \<open>The Importer: process-dealer-excel.py\<close>

text \<open>
  A spreadsheet row has eleven positional columns. An empty cell is \<open>None\<close> (pandas reads
  it as NaN). The cells of the text columns hold text; the ZIP cell holds a float, an
  int or text, as pandas reads a numeric column.
\<close>

datatype zip_cell = Zip_na | Zip_float real | Zip_int int | Zip_text string

record row =
  col_dealer_name :: "string option"
  col_contact_name :: "string option"
  col_notes :: "string option"
  col_phone :: "string option"
  col_address :: "string option"
  col_city :: "string option"
  col_state :: "string option"
  col_zip :: zip_cell
  col_email :: "string option"
  col_email2 :: "string option"
  col_extra :: "string option"

record address =
  street :: "string option"
  city :: "string option"
  state :: "string option"
  zip_code :: "string option"

text \<open>
  The dealer record is the JSON object of the two scripts. \<open>address\<close> is \<open>None\<close> when
  the key is absent, \<open>coverage_radius_miles\<close> is \<open>None\<close> until the Expander sets it.
\<close>

record dealer =
  dealer_id :: string
  dealer_name :: string
  status :: string
  primary_contact_name :: "string option"
  primary_contact_email :: "string option"
  primary_phone :: "string option"
  address :: "address option"
  coverage_zips :: "string list"
  priority_weight :: int
  lead_delivery_method :: string
  is_top50 :: bool
  dealer_notes :: "string option"
  coverage_radius_miles :: "int option"

definition clean_phone :: "string option \<Rightarrow> string option" where
  "clean_phone phone_str =
     (case phone_str of
        None \<Rightarrow> None
      | Some p \<Rightarrow>
          (let first = sub_c_prefix (strip (first_line p))
           in if first \<noteq> [] then Some first else None))"

definition clean_email :: "string option \<Rightarrow> string option" where
  "clean_email email_str =
     (case email_str of
        None \<Rightarrow> None
      | Some e \<Rightarrow>
          (let first = strip (first_line e)
           in if first \<noteq> [] \<and> CHR ''@'' \<in> set first then Some (lower first) else None))"

definition clean_state :: "string option \<Rightarrow> string option" where
  "clean_state st = (case st of None \<Rightarrow> None | Some s \<Rightarrow> Some (strip (upper s)))"

definition int_of_float :: "real \<Rightarrow> int" where
  \<comment> \<open>\<open>int(x)\<close> of a finite float: truncation towards zero\<close>
  "int_of_float x = (if 0 \<le> x then \<lfloor>x\<rfloor> else \<lceil>x\<rceil>)"

definition clean_zip :: "zip_cell \<Rightarrow> string option" where
  "clean_zip zip_val =
     (case zip_val of
        Zip_na \<Rightarrow> None
      | _ \<Rightarrow>
          (let zip_str = (case zip_val of
                            Zip_float x \<Rightarrow> str_int (int_of_float x)
                          | Zip_int i \<Rightarrow> str_int i
                          | Zip_text s \<Rightarrow> s
                          | Zip_na \<Rightarrow> [])
           in Some (if isdigit zip_str then zfill 5 zip_str else zip_str)))"

definition generate_dealer_id :: "string \<Rightarrow> string" where
  "generate_dealer_id name =
     (let clean = sub_non_alnum (strip (lower name));
          clean = strip_underscore (sub_underscores clean)
      in take 50 clean)"

definition text_cell :: "string option \<Rightarrow> string option" where
  \<comment> \<open>\<open>str(x).strip() if pd.notna(x) else None\<close>\<close>
  "text_cell x = (case x of None \<Rightarrow> None | Some s \<Rightarrow> Some (strip s))"

definition top50_names :: "row list \<Rightarrow> string list" where
  \<comment> \<open>the set \<open>df_top50['dealer_name'].str.lower().str.strip()\<close>; an empty cell stays
      NaN there and equals no name\<close>
  "top50_names df_top50 =
     concat (map (\<lambda>r. case col_dealer_name r of None \<Rightarrow> [] | Some n \<Rightarrow> [strip (lower n)])
                 df_top50)"

definition make_dealer :: "string list \<Rightarrow> row \<Rightarrow> dealer" where
  \<comment> \<open>the body of the loop over the rows of the sheet of all dealers\<close>
  "make_dealer top50 r =
     (let name = (case col_dealer_name r of Some n \<Rightarrow> strip n | None \<Rightarrow> ''Unknown'');
          top = (strip (lower name) \<in> set top50)
      in \<lparr> dealer_id = generate_dealer_id name,
           dealer_name = name,
           status = ''active'',
           primary_contact_name =
             (case col_contact_name r of
                Some c \<Rightarrow> Some (strip (first_line c)) | None \<Rightarrow> None),
           primary_contact_email = clean_email (col_email r),
           primary_phone = clean_phone (col_phone r),
           address = Some \<lparr> street = text_cell (col_address r),
                            city = text_cell (col_city r),
                            state = clean_state (col_state r),
                            zip_code = clean_zip (col_zip r) \<rparr>,
           coverage_zips =
             \<comment> \<open>\<open>[clean_zip(row['zip'])] if pd.notna(row['zip']) else []\<close>:
                 \<open>clean_zip\<close> is \<open>None\<close> on the empty cell and on no other\<close>
             (case clean_zip (col_zip r) of Some z \<Rightarrow> [z] | None \<Rightarrow> []),
           priority_weight = (if top then 100 else 50),
           lead_delivery_method = ''email'',
           is_top50 = top,
           dealer_notes = text_cell (col_notes r),
           coverage_radius_miles = None \<rparr>)"

fun dedup_loop :: "string list \<Rightarrow> (string \<rightharpoonup> nat) \<Rightarrow> dealer list \<Rightarrow> dealer list" where
  \<comment> \<open>the loop \<open>for d in dealers\<close> of the duplicate handling, with the dictionary \<open>seen\<close>\<close>
  "dedup_loop ids seen [] = []"
| "dedup_loop ids seen (d # ds) =
     (let base_id = dealer_id d
      in if 1 < count_list ids base_id
         then (let n = (case seen base_id of None \<Rightarrow> 0 | Some k \<Rightarrow> k) + 1;
                   seen' = seen(base_id \<mapsto> n)
               in (if 1 < n then d\<lparr>dealer_id := base_id @ ''_'' @ str_nat n\<rparr> else d)
                  # dedup_loop ids seen' ds)
         else d # dedup_loop ids seen ds)"

definition handle_duplicates :: "dealer list \<Rightarrow> dealer list" where
  "handle_duplicates dealers =
     (let ids = map dealer_id dealers;
          duplicates = filter (\<lambda>x. 1 < count_list ids x) ids
      in if duplicates \<noteq> [] then dedup_loop ids Map.empty dealers else dealers)"

definition process_excel :: "row list \<Rightarrow> row list \<Rightarrow> dealer list" where
  \<comment> \<open>\<open>process_excel\<close> on the rows of the sheets \<open>112 Dealers\<close> and \<open>Top 50\<close>\<close>
  "process_excel df_112 df_top50 =
     handle_duplicates (map (make_dealer (top50_names df_top50)) df_112)"

section \<open>The Expander: expand-dealer-coverage.py\<close>

text \<open>
  The floats of the distance computation are modelled by real numbers: \<open>np.sin\<close>,
  \<open>np.cos\<close>, \<open>np.sqrt\<close> and \<open>np.arctan2\<close> are the real functions, and rounding is
  left out.
\<close>

definition radians :: "real \<Rightarrow> real" where
  "radians x = x * (pi / 180)"

definition arctan2 :: "real \<Rightarrow> real \<Rightarrow> real" where
  \<comment> \<open>\<open>np.arctan2(y, x)\<close>: the angle of the point \<open>(x, y)\<close>, in \<open>(-pi, pi]\<close>\<close>
  "arctan2 y x =
     (if 0 < x then arctan (y / x)
      else if x < 0 then (if 0 \<le> y then arctan (y / x) + pi else arctan (y / x) - pi)
      else if 0 < y then pi / 2
      else if y < 0 then - (pi / 2)
      else 0)"

definition haversine :: "real \<Rightarrow> real \<Rightarrow> real \<Rightarrow> real \<Rightarrow> real" where
  \<comment> \<open>one element of \<open>haversine_vec\<close>: the body of the function at the element
      \<open>(lat, lon)\<close> of the arrays \<open>lats\<close>, \<open>lons\<close>\<close>
  "haversine lat1 lon1 lat lon =
     (let R = 3959;
          lat1_rad = radians lat1;
          lats_rad = radians lat;
          dlat = radians (lat - lat1);
          dlon = radians (lon - lon1);
          a = (sin (dlat / 2))\<^sup>2 + cos lat1_rad * cos lats_rad * (sin (dlon / 2))\<^sup>2;
          c = 2 * arctan2 (sqrt a) (sqrt (1 - a))
      in R * c)"

definition haversine_vec :: "real \<Rightarrow> real \<Rightarrow> real list \<Rightarrow> real list \<Rightarrow> real list" where
  "haversine_vec lat1 lon1 lats lons =
     map (\<lambda>(lat, lon). haversine lat1 lon1 lat lon) (zip lats lons)"

definition spec_distance :: "real \<Rightarrow> real \<Rightarrow> real \<Rightarrow> real \<Rightarrow> real" where
  \<comment> \<open>the distance as the specification words it: all four angles are converted to
      radians first, the differences are taken afterwards\<close>
  "spec_distance phi1_deg lam1_deg phi2_deg lam2_deg =
     (let phi1 = radians phi1_deg;
          lam1 = radians lam1_deg;
          phi2 = radians phi2_deg;
          lam2 = radians lam2_deg;
          dphi = phi2 - phi1;
          dlam = lam2 - lam1;
          a = (sin (dphi / 2))\<^sup>2 + cos phi1 * cos phi2 * (sin (dlam / 2))\<^sup>2
      in 2 * 3959 * arctan2 (sqrt a) (sqrt (1 - a)))"

text \<open>
  A row of the postal code table of \<open>pgeocode\<close>; a coordinate that is NaN is \<open>None\<close>.
\<close>

record ref_row =
  postal_code :: string
  latitude :: "real option"
  longitude :: "real option"

type_synonym zip_dict = "(string \<times> real \<times> real) list"

fun dict_set :: "'k \<Rightarrow> 'v \<Rightarrow> ('k \<times> 'v) list \<Rightarrow> ('k \<times> 'v) list" where
  \<comment> \<open>\<open>d[k] = v\<close> on a Python dict, kept as the list of its items in insertion order:
      a key that is present keeps its place and takes the new value\<close>
  "dict_set k v [] = [(k, v)]"
| "dict_set k v (p # ps) = (if fst p = k then (k, v) # ps else p # dict_set k v ps)"

definition valid_rows :: "ref_row list \<Rightarrow> (string \<times> real \<times> real) list" where
  \<comment> \<open>the rows with both coordinates present\<close>
  "valid_rows all_zips_df =
     List.map_filter
       (\<lambda>r. case latitude r of
               None \<Rightarrow> None
             | Some la \<Rightarrow> (case longitude r of
                             None \<Rightarrow> None
                           | Some lo \<Rightarrow> Some (postal_code r, la, lo)))
       all_zips_df"

definition build_zip_coords :: "ref_row list \<Rightarrow> zip_dict" where
  "build_zip_coords all_zips_df =
     fold (\<lambda>(pc, la, lo) zip_coords. dict_set (zfill 5 pc) (la, lo) zip_coords)
          (valid_rows all_zips_df) []"

definition all_zip_list :: "zip_dict \<Rightarrow> string list" where
  "all_zip_list zip_coords = map fst zip_coords"

definition all_lats :: "zip_dict \<Rightarrow> real list" where
  \<comment> \<open>\<open>zip_coords[z][0]\<close> for the keys \<open>z\<close> in order: the value of each item\<close>
  "all_lats zip_coords = map (\<lambda>(z, la, lo). la) zip_coords"

definition all_lons :: "zip_dict \<Rightarrow> real list" where
  "all_lons zip_coords = map (\<lambda>(z, la, lo). lo) zip_coords"

record stats =
  expanded :: nat
  skipped_no_zip :: nat
  skipped_not_found :: nat
  total_zips :: nat
  min_coverage :: enat
  max_coverage :: nat

definition init_stats :: stats where
  "init_stats = \<lparr> expanded = 0, skipped_no_zip = 0, skipped_not_found = 0,
                  total_zips = 0, min_coverage = \<infinity>, max_coverage = 0 \<rparr>"

definition get_zip :: "dealer \<Rightarrow> string option" where
  \<comment> \<open>\<open>dealer.get('address', {}).get('zip')\<close>\<close>
  "get_zip d = (case address d of None \<Rightarrow> None | Some a \<Rightarrow> zip_code a)"

definition normalize_zip :: "string \<Rightarrow> string" where
  \<comment> \<open>the lines under \<open>Clean/normalize ZIP\<close>\<close>
  "normalize_zip z =
     (let dealer_zip = strip z;
          dealer_zip = (if \<not> isdigit dealer_zip then filter isdigit_chr dealer_zip
                        else dealer_zip)
      in take 5 (zfill 5 dealer_zip))"

definition nearby_zips :: "int \<Rightarrow> zip_dict \<Rightarrow> real \<Rightarrow> real \<Rightarrow> string list" where
  "nearby_zips radius_miles zip_coords center_lat center_lon =
     (let distances = haversine_vec center_lat center_lon
                        (all_lats zip_coords) (all_lons zip_coords);
          mask = map (\<lambda>x. x \<le> real_of_int radius_miles) distances
      in sort (map (\<lambda>j. all_zip_list zip_coords ! j)
                   (filter (\<lambda>j. mask ! j) [0..<length (all_zip_list zip_coords)])))"

definition expand_dealer :: "int \<Rightarrow> zip_dict \<Rightarrow> stats \<Rightarrow> dealer \<Rightarrow> stats \<times> dealer" where
  \<comment> \<open>the body of the loop over the dealers\<close>
  "expand_dealer radius_miles zip_coords st d =
     (case get_zip d of
        None \<Rightarrow> (st\<lparr>skipped_no_zip := skipped_no_zip st + 1\<rparr>, d\<lparr>coverage_zips := []\<rparr>)
      | Some z \<Rightarrow>
          if z = [] then (st\<lparr>skipped_no_zip := skipped_no_zip st + 1\<rparr>, d\<lparr>coverage_zips := []\<rparr>)
          else
            (let dealer_zip = normalize_zip z
             in case map_of zip_coords dealer_zip of
                  None \<Rightarrow> (st\<lparr>skipped_not_found := skipped_not_found st + 1\<rparr>,
                           d\<lparr>coverage_zips := [dealer_zip]\<rparr>)
                | Some (center_lat, center_lon) \<Rightarrow>
                    (let nearby = nearby_zips radius_miles zip_coords center_lat center_lon;
                         coverage_count = length nearby
                     in (st\<lparr>expanded := expanded st + 1,
                            total_zips := total_zips st + coverage_count,
                            min_coverage := min (min_coverage st) (enat coverage_count),
                            max_coverage := max (max_coverage st) coverage_count\<rparr>,
                         d\<lparr>coverage_zips := nearby,
                           coverage_radius_miles := Some radius_miles\<rparr>))))"

fun expand_loop :: "int \<Rightarrow> zip_dict \<Rightarrow> stats \<Rightarrow> dealer list \<Rightarrow> dealer list \<times> stats" where
  "expand_loop radius_miles zip_coords st [] = ([], st)"
| "expand_loop radius_miles zip_coords st (d # ds) =
     (let (st', d') = expand_dealer radius_miles zip_coords st d;
          (ds', st'') = expand_loop radius_miles zip_coords st' ds
      in (d' # ds', st''))"

definition expand_coverage :: "int \<Rightarrow> ref_row list \<Rightarrow> dealer list \<Rightarrow> dealer list \<times> stats" where
  \<comment> \<open>\<open>main\<close> of the Expander, from the radius, the postal code table and the dealers
      read, to the dealers written and the counters of the summary\<close>
  "expand_coverage radius_miles all_zips_df dealers =
     expand_loop radius_miles (build_zip_coords all_zips_df) init_stats dealers"

section \<open>Auxiliary notions\<close>

text \<open>
  The predicates in which the properties are stated, and a small sheet and a small
  postal code table on which they are evaluated.
\<close>

definition in_radius :: "int \<Rightarrow> real \<Rightarrow> real \<Rightarrow> string \<times> real \<times> real \<Rightarrow> bool" where
  \<comment> \<open>the item of the table lies within the radius of the centre\<close>
  "in_radius R cla clo e = (case e of (z, la, lo) \<Rightarrow> haversine cla clo la lo \<le> real_of_int R)"

definition no_id :: "dealer \<Rightarrow> dealer" where
  \<comment> \<open>a record with its identifier blanked: what the duplicate handling leaves alone\<close>
  "no_id d = d\<lparr>dealer_id := []\<rparr>"

definition five_digits :: "string \<Rightarrow> bool" where
  \<comment> \<open>exactly five characters, each a digit for \<open>str.isdigit\<close>\<close>
  "five_digits z = (length z = 5 \<and> list_all isdigit_chr z)"





definition id_char :: "char \<Rightarrow> bool" where
  \<comment> \<open>a lowercase letter, a decimal digit or the underscore\<close>
  "id_char c = (ascii_lower c \<or> ascii_digit c \<or> c = CHR ''_'')"

definition demo_row :: "string \<Rightarrow> zip_cell \<Rightarrow> row" where
  "demo_row name z =
     \<lparr> col_dealer_name = Some name, col_contact_name = None, col_notes = None,
       col_phone = None, col_address = None, col_city = None, col_state = None,
       col_zip = z, col_email = None, col_email2 = None, col_extra = None \<rparr>"

definition demo_sheet :: "row list" where
  "demo_sheet = [demo_row ''Acme Motors'' (Zip_int 1),
                 demo_row ''Bravo Homes'' (Zip_text ''9''),
                 demo_row ''Cedar Park'' Zip_na,
                 demo_row ''Delta'' (Zip_text ''ABC''),
                 demo_row ''Echo'' (Zip_text ''00004'')]"

definition demo_table :: "ref_row list" where
  \<comment> \<open>two postal codes at the same point, one without a latitude, and one at the
      antipode on the equator\<close>
  "demo_table = [\<lparr> postal_code = ''1'', latitude = Some 0, longitude = Some 0 \<rparr>,
                 \<lparr> postal_code = ''00002'', latitude = Some 0, longitude = Some 0 \<rparr>,
                 \<lparr> postal_code = ''00003'', latitude = None, longitude = Some 10 \<rparr>,
                 \<lparr> postal_code = ''00004'', latitude = Some 0, longitude = Some 180 \<rparr>]"

declare str_nat.simps [simp del]

section \<open>Properties\<close>

lemma radians_diff: "radians (a - b) = radians a - radians b"
  by (simp add: radians_def left_diff_distrib)

lemma haversine_eq_spec: "haversine lat1 lon1 lat lon = spec_distance lat1 lon1 lat lon"
  by (simp add: haversine_def spec_distance_def Let_def radians_diff)

lemma haversine_self: "haversine la lo la lo = 0"
  by (simp add: haversine_def radians_def arctan2_def)

lemma map_of_dict_set: "map_of (dict_set k v ps) = (map_of ps)(k \<mapsto> v)"
  by (induction ps) (auto simp: fun_eq_iff)

lemma keys_dict_set: "fst ` set (dict_set k v ps) = insert k (fst ` set ps)"
  by (induction ps) auto

lemma distinct_dict_set: "distinct (map fst ps) \<Longrightarrow> distinct (map fst (dict_set k v ps))"
  by (induction ps) (auto simp: keys_dict_set)

lemma distinct_fold_dict_set:
  "distinct (map fst acc) \<Longrightarrow>
   distinct (map fst (fold (\<lambda>(pc, la, lo) zc. dict_set (f pc) (la, lo) zc) rows acc))"
  by (induction rows arbitrary: acc) (auto simp: distinct_dict_set split: prod.splits)

lemma distinct_build_zip_coords: "distinct (map fst (build_zip_coords rows))"
  unfolding build_zip_coords_def by (rule distinct_fold_dict_set) simp

lemma index_filter_map:
  "map (\<lambda>j. f (xs ! j)) (filter (\<lambda>j. P (xs ! j)) [0..<length xs]) = map f (filter P xs)"
proof -
  have "map f (filter P xs) = map f (filter P (map (\<lambda>j. xs ! j) [0..<length xs]))"
    by (simp add: map_nth)
  also have "\<dots> = map (\<lambda>j. f (xs ! j)) (filter (\<lambda>j. P (xs ! j)) [0..<length xs])"
    by (simp add: filter_map o_def)
  finally show ?thesis by simp
qed

lemma nearby_zips_filter:
  "nearby_zips R zc cla clo = sort (map fst (filter (in_radius R cla clo) zc))"
proof -
  let ?mask = "map (\<lambda>x. x \<le> real_of_int R) (haversine_vec cla clo (all_lats zc) (all_lons zc))"
  have m: "?mask ! j = in_radius R cla clo (zc ! j)" if "j < length zc" for j
    using that
    by (simp add: haversine_vec_def all_lats_def all_lons_def in_radius_def split: prod.splits)
  have "filter (\<lambda>j. ?mask ! j) [0..<length zc] = filter (\<lambda>j. in_radius R cla clo (zc ! j)) [0..<length zc]"
    by (rule filter_cong) (auto simp: m)
  moreover have "map (\<lambda>j. map fst zc ! j) (filter (\<lambda>j. in_radius R cla clo (zc ! j)) [0..<length zc])
     = map (\<lambda>j. fst (zc ! j)) (filter (\<lambda>j. in_radius R cla clo (zc ! j)) [0..<length zc])"
    by (rule map_cong) auto
  ultimately show ?thesis
    by (simp add: nearby_zips_def all_zip_list_def Let_def index_filter_map)
qed

lemma set_nearby_zips:
  assumes "distinct (map fst zc)"
  shows "set (nearby_zips R zc cla clo) =
         {z. \<exists>la lo. map_of zc z = Some (la, lo) \<and> haversine cla clo la lo \<le> real_of_int R}"
  using assms by (fastforce simp: nearby_zips_filter in_radius_def image_iff split: prod.splits)

lemma sorted_nearby_zips: "sorted (nearby_zips R zc cla clo)"
  by (simp add: nearby_zips_filter)

lemma distinct_nearby_zips: "distinct (map fst zc) \<Longrightarrow> distinct (nearby_zips R zc cla clo)"
  by (simp add: nearby_zips_filter distinct_map_filter)

lemma snd_expand_dealer_stats:
  "snd (expand_dealer R zc st d) = snd (expand_dealer R zc st' d)"
  by (simp add: expand_dealer_def Let_def split: option.splits prod.splits)

lemma length_expand_loop: "length (fst (expand_loop R zc st ds)) = length ds"
  by (induction ds arbitrary: st) (simp_all add: split_beta)

lemma expand_loop_nth:
  "i < length ds \<Longrightarrow> fst (expand_loop R zc st ds) ! i = snd (expand_dealer R zc init_stats (ds ! i))"
proof (induction ds arbitrary: st i)
  case Nil then show ?case by simp
next
  case (Cons d ds)
  show ?case
  proof (cases i)
    case 0
    then show ?thesis
      using snd_expand_dealer_stats[of R zc st d init_stats]
      by (simp add: split_beta)
  next
    case (Suc k)
    with Cons show ?thesis by (simp add: split_beta)
  qed
qed

lemma expand_coverage_nth:
  "i < length ds \<Longrightarrow>
   fst (expand_coverage R rows ds) ! i =
   snd (expand_dealer R (build_zip_coords rows) init_stats (ds ! i))"
  by (simp add: expand_coverage_def expand_loop_nth)

lemma expand_dealer_no_zip:
  "get_zip d = None \<or> get_zip d = Some [] \<Longrightarrow>
   snd (expand_dealer R zc st d) = d\<lparr>coverage_zips := []\<rparr>"
  by (auto simp: expand_dealer_def)

lemma expand_dealer_not_found:
  "get_zip d = Some z \<Longrightarrow> z \<noteq> [] \<Longrightarrow> map_of zc (normalize_zip z) = None \<Longrightarrow>
   snd (expand_dealer R zc st d) = d\<lparr>coverage_zips := [normalize_zip z]\<rparr>"
  by (simp add: expand_dealer_def)

lemma expand_dealer_found:
  "get_zip d = Some z \<Longrightarrow> z \<noteq> [] \<Longrightarrow> map_of zc (normalize_zip z) = Some (cla, clo) \<Longrightarrow>
   snd (expand_dealer R zc st d) =
     d\<lparr>coverage_zips := nearby_zips R zc cla clo, coverage_radius_miles := Some R\<rparr>"
  by (simp add: expand_dealer_def Let_def)

lemma isdigit_not_space: "isdigit_chr c \<Longrightarrow> \<not> isspace_chr c"
  by (auto simp: isdigit_chr_def isspace_chr_def Let_def)

lemma strip_with_id: "\<forall>c \<in> set s. \<not> P c \<Longrightarrow> strip_with P s = s"
proof -
  assume a: "\<forall>c \<in> set s. \<not> P c"
  then have "dropWhile P (rev s) = rev s" by (cases "rev s") (auto simp: dropWhile_eq_self_iff)
  moreover have "dropWhile P s = s" using a by (cases s) auto
  ultimately show ?thesis by (simp add: strip_with_def)
qed

lemma zfill_digits:
  "list_all isdigit_chr t \<Longrightarrow> zfill w t = replicate (w - length t) (CHR ''0'') @ t"
  by (cases t) (auto simp: zfill_def isdigit_chr_def Let_def)

lemma isdigit_zero: "isdigit_chr (CHR ''0'')"
  by (simp add: isdigit_chr_def)

lemma normalize_zip_shape:
  "length (normalize_zip z) = 5 \<and> list_all isdigit_chr (normalize_zip z)"
proof -
  define t where "t = (if \<not> isdigit (strip z) then filter isdigit_chr (strip z) else strip z)"
  have d: "list_all isdigit_chr t"
    by (auto simp: t_def isdigit_def list_all_iff)
  have n: "normalize_zip z = take 5 (replicate (5 - length t) (CHR ''0'') @ t)"
    using zfill_digits[OF d, of 5] by (simp add: normalize_zip_def t_def Let_def)
  have "list_all isdigit_chr (replicate (5 - length t) (CHR ''0'') @ t)"
    using d by (auto simp: list_all_iff isdigit_zero)
  then have "list_all isdigit_chr (take 5 (replicate (5 - length t) (CHR ''0'') @ t))"
    by (auto simp: list_all_iff dest: in_set_takeD)
  then show ?thesis by (simp add: n)
qed

lemma dedup_loop_no_id: "map no_id (dedup_loop ids seen ds) = map no_id ds"
  by (induction ds arbitrary: seen) (simp_all add: Let_def no_id_def)

lemma handle_duplicates_no_id: "map no_id (handle_duplicates ds) = map no_id ds"
  by (simp add: handle_duplicates_def Let_def dedup_loop_no_id)

lemma length_handle_duplicates: "length (handle_duplicates ds) = length ds"
  using handle_duplicates_no_id[of ds] by (metis length_map)

lemma length_process_excel: "length (process_excel df_112 df_top50) = length df_112"
  by (simp add: process_excel_def length_handle_duplicates)

lemma process_excel_no_id:
  assumes "j < length df_112"
  shows "no_id (process_excel df_112 df_top50 ! j)
         = no_id (make_dealer (top50_names df_top50) (df_112 ! j))"
proof -
  let ?ds = "map (make_dealer (top50_names df_top50)) df_112"
  have "map no_id (handle_duplicates ?ds) ! j = map no_id ?ds ! j"
    by (simp only: handle_duplicates_no_id)
  then show ?thesis
    using assms by (simp add: process_excel_def length_handle_duplicates)
qed

lemma process_excel_fields:
  assumes "j < length df_112"
  shows "get_zip (process_excel df_112 df_top50 ! j) = clean_zip (col_zip (df_112 ! j))"
    and "coverage_zips (process_excel df_112 df_top50 ! j)
         = (case clean_zip (col_zip (df_112 ! j)) of Some z \<Rightarrow> [z] | None \<Rightarrow> [])"
    and "coverage_radius_miles (process_excel df_112 df_top50 ! j) = None"
    and "lead_delivery_method (process_excel df_112 df_top50 ! j) = ''email''"
proof -
  let ?d = "process_excel df_112 df_top50 ! j"
  let ?m = "make_dealer (top50_names df_top50) (df_112 ! j)"
  have e: "no_id ?d = no_id ?m" using assms by (rule process_excel_no_id)
  have "get_zip ?d = get_zip (no_id ?d)" by (simp add: get_zip_def no_id_def)
  also have "\<dots> = get_zip ?m" by (simp add: e) (simp add: get_zip_def no_id_def)
  finally show "get_zip ?d = clean_zip (col_zip (df_112 ! j))"
    by (simp add: get_zip_def make_dealer_def Let_def)
  have "coverage_zips ?d = coverage_zips (no_id ?d)" by (simp add: no_id_def)
  also have "\<dots> = coverage_zips ?m" by (simp add: e) (simp add: no_id_def)
  finally show "coverage_zips ?d
         = (case clean_zip (col_zip (df_112 ! j)) of Some z \<Rightarrow> [z] | None \<Rightarrow> [])"
    by (simp add: make_dealer_def Let_def)
  have "coverage_radius_miles ?d = coverage_radius_miles (no_id ?d)" by (simp add: no_id_def)
  also have "\<dots> = coverage_radius_miles ?m" by (simp add: e) (simp add: no_id_def)
  finally show "coverage_radius_miles ?d = None"
    by (simp add: make_dealer_def Let_def)
  have "lead_delivery_method ?d = lead_delivery_method (no_id ?d)" by (simp add: no_id_def)
  also have "\<dots> = lead_delivery_method ?m" by (simp add: e) (simp add: no_id_def)
  finally show "lead_delivery_method ?d = ''email''"
    by (simp add: make_dealer_def Let_def)
qed









lemma demo_zip_coords:
  "build_zip_coords demo_table = [(''00001'', 0, 0), (''00002'', 0, 0), (''00004'', 0, 180)]"
  by (simp add: build_zip_coords_def valid_rows_def demo_table_def zfill_def eval_nat_numeral)

lemma replicate_small:
  "replicate 5 c = [c, c, c, c, c]" "replicate 4 c = [c, c, c, c]"
  "replicate 3 c = [c, c, c]" "replicate 2 c = [c, c]"
  by (simp_all add: eval_nat_numeral)

lemmas str_eval =
  normalize_zip_def strip_def strip_with_def isspace_chr_def isdigit_def isdigit_chr_def
  zfill_def replicate_small clean_zip_def str_int_def digit_chr_def str_nat.simps

lemma demo_clean_zip:
  "clean_zip (col_zip (demo_sheet ! 0)) = Some ''00001''"
  "clean_zip (col_zip (demo_sheet ! 1)) = Some ''00009''"
  "clean_zip (col_zip (demo_sheet ! 2)) = None"
  "clean_zip (col_zip (demo_sheet ! 3)) = Some ''ABC''"
  "clean_zip (col_zip (demo_sheet ! 4)) = Some ''00004''"
  by (simp_all add: demo_sheet_def demo_row_def str_eval)

lemma demo_sheet_length: "length demo_sheet = 5"
  by (simp add: demo_sheet_def)

lemma demo_get_zip:
  "get_zip (process_excel demo_sheet [] ! 0) = Some ''00001''"
  "get_zip (process_excel demo_sheet [] ! 1) = Some ''00009''"
  "get_zip (process_excel demo_sheet [] ! 2) = None"
  "get_zip (process_excel demo_sheet [] ! 3) = Some ''ABC''"
  "get_zip (process_excel demo_sheet [] ! 4) = Some ''00004''"
  using demo_clean_zip by (simp_all add: process_excel_fields(1) demo_sheet_length)

lemma demo_length: "length (process_excel demo_sheet []) = 5"
  by (simp add: length_process_excel demo_sheet_def)

lemma demo_normalize:
  "normalize_zip ''00001'' = ''00001''"
  "normalize_zip ''00009'' = ''00009''"
  "normalize_zip ''ABC'' = ''00000''"
  "normalize_zip ''00004'' = ''00004''"
  by (simp_all add: str_eval)

lemma haversine_antipode: "haversine 0 0 0 180 = 3959 * pi"
  by (simp add: haversine_def radians_def arctan2_def)

lemma demo_nearby_0: "nearby_zips 0 (build_zip_coords demo_table) 0 0 = [''00001'', ''00002'']"
  using pi_gt_zero
  by (simp add: nearby_zips_filter demo_zip_coords in_radius_def haversine_self haversine_antipode not_le)

lemma normalize_zip_fixed:
  assumes "five_digits z"
  shows "normalize_zip z = z"
proof -
  have len: "length z = 5" and dig: "list_all isdigit_chr z"
    using assms by (simp_all add: five_digits_def)
  have "strip z = z"
    unfolding strip_def using dig
    by (intro strip_with_id) (auto simp: list_all_iff isdigit_not_space)
  moreover have "isdigit z" using len dig by (auto simp: isdigit_def)
  ultimately show ?thesis using len by (simp add: normalize_zip_def zfill_def)
qed

lemma haversine_antipode_back: "haversine 0 180 0 0 = 3959 * pi"
  by (simp add: haversine_def radians_def arctan2_def power2_eq_square)

lemma demo_nearby_50: "nearby_zips 50 (build_zip_coords demo_table) 0 0 = [''00001'', ''00002'']"
  using pi_ge_two
  by (simp add: nearby_zips_filter demo_zip_coords in_radius_def haversine_self
        haversine_antipode not_le)

lemma demo_coverage_50:
  "coverage_zips (fst (expand_coverage 50 demo_table (process_excel demo_sheet [])) ! 0)
   = [''00001'', ''00002'']"
proof -
  have "map_of (build_zip_coords demo_table) (normalize_zip ''00001'') = Some (0, 0)"
    by (simp add: demo_zip_coords demo_normalize)
  then show ?thesis
    using demo_get_zip(1)
    by (simp add: expand_coverage_nth demo_length expand_dealer_found demo_nearby_50)
qed

lemma singleton_list: "distinct zs \<Longrightarrow> set zs = {x} \<Longrightarrow> zs = [x]"
  by (cases zs) (auto simp: subset_singleton_iff)

lemma record_same_coverage: "coverage_zips d = zs \<Longrightarrow> d\<lparr>coverage_zips := zs\<rparr> = d"
  by auto

lemma demo_nearby_4: "nearby_zips 0 (build_zip_coords demo_table) 0 180 = [''00004'']"
  using pi_gt_zero
  by (simp add: nearby_zips_filter demo_zip_coords in_radius_def haversine_self
        haversine_antipode_back not_le)

lemma of_char_lower_chr:
  "of_char (lower_chr c) =
     (let n = (of_char c :: nat)
      in if (65 \<le> n \<and> n \<le> 90) \<or> (192 \<le> n \<and> n \<le> 222 \<and> n \<noteq> 215) then n + 32 else n)"
  by (auto simp: lower_chr_def Let_def)

lemma lower_chr_not_upper: "\<not> ascii_upper (lower_chr c)"
  by (auto simp: ascii_upper_def of_char_lower_chr Let_def)

lemma set_sub_non_alnum:
  "c \<in> set (sub_non_alnum s) \<Longrightarrow> (c \<in> set s \<and> alnum_class c) \<or> c = CHR ''_''"
  by (induction s rule: sub_non_alnum.induct) (auto split: if_splits dest: set_dropWhileD)

lemma set_sub_underscores: "c \<in> set (sub_underscores s) \<Longrightarrow> c \<in> set s"
  by (induction s rule: sub_underscores.induct) (auto split: if_splits dest: set_dropWhileD)

lemma set_strip_with: "c \<in> set (strip_with P s) \<Longrightarrow> c \<in> set s"
  unfolding strip_with_def by (auto dest!: set_dropWhileD)

lemma generate_dealer_id_chars:
  assumes "c \<in> set (generate_dealer_id name)"
  shows "id_char c"
proof -
  from assms have "c \<in> set (sub_non_alnum (strip (lower name)))"
    by (auto simp: generate_dealer_id_def Let_def strip_underscore_def
          dest!: in_set_takeD set_strip_with set_sub_underscores)
  then have "(c \<in> set (strip (lower name)) \<and> alnum_class c) \<or> c = CHR ''_''"
    by (rule set_sub_non_alnum)
  moreover have "\<not> ascii_upper c" if "c \<in> set (strip (lower name))"
    using that lower_chr_not_upper
    by (auto simp: strip_def lower_def dest!: set_strip_with)
  ultimately show ?thesis by (auto simp: id_char_def alnum_class_def)
qed

lemma sub_underscores_Nil: "sub_underscores s = [] \<longleftrightarrow> s = []"
  by (cases s) auto

lemma hd_sub_underscores: "s \<noteq> [] \<Longrightarrow> hd (sub_underscores s) = hd s"
  by (cases s) auto

lemma no_double_sub_underscores: "\<not> sublist ''__'' (sub_underscores s)"
proof (induction s rule: sub_underscores.induct)
  case 1
  then show ?case by simp
next
  case (2 c s)
  show ?case
  proof (cases "c = CHR ''_''")
    case True
    let ?r = "dropWhile (\<lambda>x. x = CHR ''_'') s"
    have "\<not> prefix ''_'' (sub_underscores ?r)"
    proof (cases "?r = []")
      case True
      show ?thesis unfolding True by simp
    next
      case False
      then have "hd ?r \<noteq> CHR ''_''" using hd_dropWhile[of "\<lambda>x. x = CHR ''_''" s] by simp
      then have "hd (sub_underscores ?r) \<noteq> CHR ''_''" using False by (simp add: hd_sub_underscores)
      then show ?thesis by (cases "sub_underscores ?r") auto
    qed
    then show ?thesis using True 2 by (simp add: sublist_Cons_right)
  next
    case False
    then show ?thesis using 2 by (simp add: sublist_Cons_right)
  qed
qed

lemma sublist_strip_with: "sublist (strip_with P s) s"
proof -
  have "suffix (dropWhile P (rev s)) (rev s)" by (rule suffix_dropWhile)
  then have "prefix (rev (dropWhile P (rev s))) s"
    by (metis rev_rev_ident suffix_to_prefix)
  moreover have "suffix (strip_with P s) (rev (dropWhile P (rev s)))"
    unfolding strip_with_def by (rule suffix_dropWhile)
  ultimately show ?thesis
    by (meson prefix_imp_sublist suffix_imp_sublist sublist_order.order_trans)
qed

lemma generate_dealer_id_no_double: "\<not> sublist ''__'' (generate_dealer_id name)"
proof
  assume a: "sublist ''__'' (generate_dealer_id name)"
  let ?u = "sub_underscores (sub_non_alnum (strip (lower name)))"
  have "sublist (generate_dealer_id name) (strip_underscore ?u)"
    by (simp add: generate_dealer_id_def Let_def take_is_prefix prefix_imp_sublist)
  moreover have "sublist (strip_underscore ?u) ?u"
    unfolding strip_underscore_def by (rule sublist_strip_with)
  ultimately have "sublist ''__'' ?u"
    using a by (meson sublist_order.order_trans)
  then show False using no_double_sub_underscores by blast
qed

lemma hd_strip_with: "strip_with P s \<noteq> [] \<Longrightarrow> \<not> P (hd (strip_with P s))"
  unfolding strip_with_def by (rule hd_dropWhile)

lemma last_dropWhile_keep: "dropWhile P xs \<noteq> [] \<Longrightarrow> last (dropWhile P xs) = last xs"
  by (induction xs) (auto split: if_splits)

lemma last_strip_with:
  assumes "strip_with P s \<noteq> []"
  shows "\<not> P (last (strip_with P s))"
proof -
  let ?t = "dropWhile P (rev s)"
  have ne: "?t \<noteq> []"
  proof
    assume e: "?t = []"
    have "strip_with P s = []" unfolding strip_with_def e by simp
    then show False using assms by simp
  qed
  then have h: "\<not> P (hd ?t)" by (rule hd_dropWhile)
  have "last (strip_with P s) = last (rev ?t)"
    using assms unfolding strip_with_def by (rule last_dropWhile_keep)
  also have "\<dots> = hd ?t" using ne by (simp add: last_rev)
  finally show ?thesis using h by simp
qed

lemma generate_dealer_id_shape:
  "(\<forall>c \<in> set (generate_dealer_id name). id_char c)
   \<and> \<not> sublist ''__'' (generate_dealer_id name)
   \<and> length (generate_dealer_id name) \<le> 50
   \<and> (generate_dealer_id name \<noteq> [] \<longrightarrow> hd (generate_dealer_id name) \<noteq> CHR ''_'')
   \<and> (generate_dealer_id name \<noteq> []
        \<and> length (strip_underscore (sub_underscores (sub_non_alnum (strip (lower name))))) \<le> 50
        \<longrightarrow> last (generate_dealer_id name) \<noteq> CHR ''_'')"
proof -
  let ?v = "strip_underscore (sub_underscores (sub_non_alnum (strip (lower name))))"
  have g: "generate_dealer_id name = take 50 ?v"
    by (simp add: generate_dealer_id_def Let_def)
  have "hd (take 50 ?v) \<noteq> CHR ''_''" if "take 50 ?v \<noteq> []"
  proof -
    have "?v \<noteq> []" using that by auto
    then have "hd ?v \<noteq> CHR ''_''"
      unfolding strip_underscore_def using hd_strip_with[of "\<lambda>c. c = CHR ''_''"] by blast
    then show ?thesis using that by (cases ?v) auto
  qed
  moreover have "last (take 50 ?v) \<noteq> CHR ''_''" if "take 50 ?v \<noteq> []" "length ?v \<le> 50"
  proof -
    have "?v \<noteq> []" using that by auto
    then have "last ?v \<noteq> CHR ''_''"
      unfolding strip_underscore_def using last_strip_with[of "\<lambda>c. c = CHR ''_''"] by blast
    then show ?thesis using that by simp
  qed
  ultimately show ?thesis
    using generate_dealer_id_chars[of _ name] generate_dealer_id_no_double[of name]
    by (simp add: g)
qed












section \<open>The claims\<close>

subsection \<open>C1: the coverage lies within the radius and holds the dealer's own ZIP\<close>

text \<open>
  C1. Take the dealer at any position \<open>i\<close> of the Expander's input whose ZIP is present
  and whose normalized ZIP is a key of the reference table, with coordinates
  \<open>(cla, clo)\<close>, and a radius \<open>R \<ge> 0\<close>. Every ZIP of the \<open>coverage_zips\<close> the Expander
  assigns is a key of the table whose coordinates have haversine distance at most \<open>R\<close>
  from \<open>(cla, clo)\<close>; the distance of the dealer's coordinates from themselves is 0, and
  the dealer's normalized ZIP is in \<open>coverage_zips\<close>.
\<close>

theorem coverage_within_radius:
  assumes "i < length dealers"
    and "get_zip (dealers ! i) = Some z" and "z \<noteq> []"
    and "map_of (build_zip_coords rows) (normalize_zip z) = Some (cla, clo)"
    and "0 \<le> R"
  shows "(\<forall>z' \<in> set (coverage_zips (fst (expand_coverage R rows dealers) ! i)).
            \<exists>la lo. map_of (build_zip_coords rows) z' = Some (la, lo)
                   \<and> haversine cla clo la lo \<le> real_of_int R)
         \<and> haversine cla clo cla clo = 0
         \<and> normalize_zip z \<in> set (coverage_zips (fst (expand_coverage R rows dealers) ! i))"
proof -
  let ?zc = "build_zip_coords rows"
  have cz: "coverage_zips (fst (expand_coverage R rows dealers) ! i) = nearby_zips R ?zc cla clo"
    using assms by (simp add: expand_coverage_nth expand_dealer_found)
  have s: "set (nearby_zips R ?zc cla clo) =
         {z. \<exists>la lo. map_of ?zc z = Some (la, lo) \<and> haversine cla clo la lo \<le> real_of_int R}"
    by (rule set_nearby_zips) (rule distinct_build_zip_coords)
  show ?thesis
    using assms(4,5) by (simp add: cz s haversine_self)
qed

theorem coverage_within_radius_witness:
  "(0::int) \<le> 50
   \<and> get_zip (process_excel demo_sheet [] ! 0) = Some ''00001''
   \<and> map_of (build_zip_coords demo_table) (normalize_zip ''00001'') = Some (0, 0)
   \<and> (\<exists>la lo. map_of (build_zip_coords demo_table) ''00002'' = Some (la, lo)
               \<and> haversine 0 0 la lo \<le> real_of_int 50)
   \<and> haversine 0 0 0 0 = 0
   \<and> normalize_zip ''00001''
       \<in> set (coverage_zips
                (fst (expand_coverage 50 demo_table (process_excel demo_sheet [])) ! 0))"
proof -
  have h1: "0 < length (process_excel demo_sheet [])" by (simp add: demo_length)
  have h2: "get_zip (process_excel demo_sheet [] ! 0) = Some ''00001''" by (rule demo_get_zip)
  have h3: "''00001'' \<noteq> []" by simp
  have h4: "map_of (build_zip_coords demo_table) (normalize_zip ''00001'') = Some (0, 0)"
    by (simp add: demo_zip_coords demo_normalize)
  have h5: "(0::int) \<le> 50" by simp
  have m: "''00002'' \<in> set (coverage_zips
                (fst (expand_coverage 50 demo_table (process_excel demo_sheet [])) ! 0))"
    by (simp add: demo_coverage_50)
  show ?thesis
    using coverage_within_radius[OF h1 h2 h3 h4 h5] m h2 h4 h5 by blast
qed

subsection \<open>C2: the distance function is the haversine formula of the specification\<close>

text \<open>
  C2. On arrays of the same length, \<open>haversine_vec\<close> returns an array of that length
  whose element \<open>j\<close> is the distance of the specification between the centre and the
  point \<open>j\<close>: with all angles converted to radians,
  \<open>a = sin\<^sup>2(dphi/2) + cos phi1 cos phi2 sin\<^sup>2(dlam/2)\<close> and the distance is
  \<open>2 R atan2(sqrt a, sqrt (1 - a))\<close> with \<open>R = 3959\<close>. The code takes the differences in
  degrees and converts them; the specification converts and takes the differences.
\<close>

theorem haversine_vec_is_spec:
  assumes "length lats = length lons"
  shows "length (haversine_vec lat1 lon1 lats lons) = length lats
         \<and> (\<forall>j < length lats.
               haversine_vec lat1 lon1 lats lons ! j
               = spec_distance lat1 lon1 (lats ! j) (lons ! j))"
  using assms by (simp add: haversine_vec_def haversine_eq_spec)

theorem haversine_vec_is_spec_witness:
  "length [0, 0 :: real] = length [0, 180 :: real]
   \<and> length (haversine_vec 0 0 [0, 0] [0, 180]) = 2
   \<and> haversine_vec 0 0 [0, 0] [0, 180] ! 1 = spec_distance 0 0 0 180"
proof -
  have h: "length [0, 0 :: real] = length [0, 180 :: real]" by simp
  show ?thesis
    using haversine_vec_is_spec[OF h, of 0 0] by simp
qed

subsection \<open>C3: the coverage grows with the radius\<close>

text \<open>
  C3. For a dealer whose ZIP resolves in the reference table and radii \<open>R1 < R2\<close>, over
  the same table and the same dealers, every ZIP of the coverage computed at \<open>R1\<close> is in
  the coverage computed at \<open>R2\<close>.
\<close>

theorem coverage_monotone:
  assumes "R1 < R2" and "i < length dealers"
    and "get_zip (dealers ! i) = Some z" and "z \<noteq> []"
    and "map_of (build_zip_coords rows) (normalize_zip z) = Some (cla, clo)"
  shows "set (coverage_zips (fst (expand_coverage R1 rows dealers) ! i))
         \<subseteq> set (coverage_zips (fst (expand_coverage R2 rows dealers) ! i))"
proof -
  let ?zc = "build_zip_coords rows"
  have cz: "coverage_zips (fst (expand_coverage R rows dealers) ! i) = nearby_zips R ?zc cla clo"
    for R
    using assms by (simp add: expand_coverage_nth expand_dealer_found)
  have s: "set (nearby_zips R ?zc cla clo) =
         {z. \<exists>la lo. map_of ?zc z = Some (la, lo) \<and> haversine cla clo la lo \<le> real_of_int R}"
    for R
    by (rule set_nearby_zips) (rule distinct_build_zip_coords)
  have "real_of_int R1 \<le> real_of_int R2" using assms(1) by simp
  then show ?thesis unfolding cz s by force
qed

theorem coverage_monotone_witness:
  "set (coverage_zips (fst (expand_coverage 0 demo_table (process_excel demo_sheet [])) ! 0))
   \<subseteq> set (coverage_zips (fst (expand_coverage 50 demo_table (process_excel demo_sheet [])) ! 0))"
proof -
  have h0: "(0::int) < 50" by simp
  have h1: "0 < length (process_excel demo_sheet [])" by (simp add: demo_length)
  have h2: "get_zip (process_excel demo_sheet [] ! 0) = Some ''00001''" by (rule demo_get_zip)
  have h3: "''00001'' \<noteq> []" by simp
  have h4: "map_of (build_zip_coords demo_table) (normalize_zip ''00001'') = Some (0, 0)"
    by (simp add: demo_zip_coords demo_normalize)
  show ?thesis by (rule coverage_monotone[OF h0 h1 h2 h3 h4])
qed

subsection \<open>C4: the three outcomes of the Expander\<close>

text \<open>
  C4. For the dealer at any position \<open>i\<close> of the input, the record the Expander writes
  is one of three. If no ZIP is present (the key is absent, null or the empty string),
  it is the input record with \<open>coverage_zips\<close> empty, so no radius is recorded. If the
  normalized ZIP is not a key of the reference table, it is the input record with
  \<open>coverage_zips\<close> the one-element list of the normalized ZIP, and no radius is recorded.
  If it is a key, with coordinates \<open>(cla, clo)\<close>, it is the input record with
  \<open>coverage_radius_miles\<close> the radius used and \<open>coverage_zips\<close> the list, sorted in the
  lexicographic order of strings and without repetition, of the keys of the table whose
  distance from \<open>(cla, clo)\<close> is at most the radius. The three conditions exclude one
  another and cover every record.
\<close>

theorem three_outcomes:
  assumes "i < length dealers"
  shows "(get_zip (dealers ! i) = None \<or> get_zip (dealers ! i) = Some [] \<longrightarrow>
            fst (expand_coverage R rows dealers) ! i = (dealers ! i)\<lparr>coverage_zips := []\<rparr>)
       \<and> (\<forall>z. get_zip (dealers ! i) = Some z \<and> z \<noteq> []
               \<and> map_of (build_zip_coords rows) (normalize_zip z) = None \<longrightarrow>
            fst (expand_coverage R rows dealers) ! i
              = (dealers ! i)\<lparr>coverage_zips := [normalize_zip z]\<rparr>)
       \<and> (\<forall>z cla clo. get_zip (dealers ! i) = Some z \<and> z \<noteq> []
               \<and> map_of (build_zip_coords rows) (normalize_zip z) = Some (cla, clo) \<longrightarrow>
            (\<exists>zs. fst (expand_coverage R rows dealers) ! i
                    = (dealers ! i)\<lparr>coverage_zips := zs, coverage_radius_miles := Some R\<rparr>
                 \<and> sorted zs \<and> distinct zs
                 \<and> set zs = {z'. \<exists>la lo. map_of (build_zip_coords rows) z' = Some (la, lo)
                                       \<and> haversine cla clo la lo \<le> real_of_int R}))"
proof (intro conjI allI impI)
  assume "get_zip (dealers ! i) = None \<or> get_zip (dealers ! i) = Some []"
  then show "fst (expand_coverage R rows dealers) ! i = (dealers ! i)\<lparr>coverage_zips := []\<rparr>"
    using assms by (simp add: expand_coverage_nth expand_dealer_no_zip)
next
  fix z
  assume "get_zip (dealers ! i) = Some z \<and> z \<noteq> []
          \<and> map_of (build_zip_coords rows) (normalize_zip z) = None"
  then show "fst (expand_coverage R rows dealers) ! i
              = (dealers ! i)\<lparr>coverage_zips := [normalize_zip z]\<rparr>"
    using assms by (simp add: expand_coverage_nth expand_dealer_not_found)
next
  fix z cla clo
  let ?zc = "build_zip_coords rows"
  assume a: "get_zip (dealers ! i) = Some z \<and> z \<noteq> []
          \<and> map_of ?zc (normalize_zip z) = Some (cla, clo)"
  have "fst (expand_coverage R rows dealers) ! i
          = (dealers ! i)\<lparr>coverage_zips := nearby_zips R ?zc cla clo,
                          coverage_radius_miles := Some R\<rparr>"
    using assms a by (simp add: expand_coverage_nth expand_dealer_found)
  moreover have "sorted (nearby_zips R ?zc cla clo)" by (rule sorted_nearby_zips)
  moreover have "distinct (nearby_zips R ?zc cla clo)"
    by (rule distinct_nearby_zips) (rule distinct_build_zip_coords)
  moreover have "set (nearby_zips R ?zc cla clo) =
         {z. \<exists>la lo. map_of ?zc z = Some (la, lo) \<and> haversine cla clo la lo \<le> real_of_int R}"
    by (rule set_nearby_zips) (rule distinct_build_zip_coords)
  ultimately show "\<exists>zs. fst (expand_coverage R rows dealers) ! i
                    = (dealers ! i)\<lparr>coverage_zips := zs, coverage_radius_miles := Some R\<rparr>
                 \<and> sorted zs \<and> distinct zs
                 \<and> set zs = {z'. \<exists>la lo. map_of ?zc z' = Some (la, lo)
                                       \<and> haversine cla clo la lo \<le> real_of_int R}"
    by blast
qed

theorem three_outcomes_witness:
  "fst (expand_coverage 50 demo_table (process_excel demo_sheet [])) ! 2
     = (process_excel demo_sheet [] ! 2)\<lparr>coverage_zips := []\<rparr>
   \<and> fst (expand_coverage 50 demo_table (process_excel demo_sheet [])) ! 1
     = (process_excel demo_sheet [] ! 1)\<lparr>coverage_zips := [normalize_zip ''00009'']\<rparr>
   \<and> (\<exists>zs. fst (expand_coverage 50 demo_table (process_excel demo_sheet [])) ! 0
             = (process_excel demo_sheet [] ! 0)
                 \<lparr>coverage_zips := zs, coverage_radius_miles := Some 50\<rparr>
           \<and> sorted zs \<and> distinct zs
           \<and> set zs = {z'. \<exists>la lo. map_of (build_zip_coords demo_table) z' = Some (la, lo)
                                 \<and> haversine 0 0 la lo \<le> real_of_int 50})"
proof -
  have l0: "0 < length (process_excel demo_sheet [])"
    and l1: "1 < length (process_excel demo_sheet [])"
    and l2: "2 < length (process_excel demo_sheet [])"
    by (simp_all add: demo_length)
  have a: "get_zip (process_excel demo_sheet [] ! 2) = None
           \<or> get_zip (process_excel demo_sheet [] ! 2) = Some []"
    by (simp add: demo_get_zip)
  have b: "get_zip (process_excel demo_sheet [] ! 1) = Some ''00009'' \<and> ''00009'' \<noteq> []
           \<and> map_of (build_zip_coords demo_table) (normalize_zip ''00009'') = None"
    using demo_get_zip(2) by (simp add: demo_zip_coords demo_normalize)
  have c: "get_zip (process_excel demo_sheet [] ! 0) = Some ''00001'' \<and> ''00001'' \<noteq> []
           \<and> map_of (build_zip_coords demo_table) (normalize_zip ''00001'') = Some (0, 0)"
    by (simp add: demo_get_zip demo_zip_coords demo_normalize)
  from three_outcomes[OF l2, of 50 demo_table] a
  have "fst (expand_coverage 50 demo_table (process_excel demo_sheet [])) ! 2
     = (process_excel demo_sheet [] ! 2)\<lparr>coverage_zips := []\<rparr>"
    by blast
  moreover from three_outcomes[OF l1, of 50 demo_table] b
  have "fst (expand_coverage 50 demo_table (process_excel demo_sheet [])) ! 1
     = (process_excel demo_sheet [] ! 1)\<lparr>coverage_zips := [normalize_zip ''00009'']\<rparr>"
    by blast
  moreover from three_outcomes[OF l0, of 50 demo_table] c
  have "\<exists>zs. fst (expand_coverage 50 demo_table (process_excel demo_sheet [])) ! 0
             = (process_excel demo_sheet [] ! 0)
                 \<lparr>coverage_zips := zs, coverage_radius_miles := Some 50\<rparr>
           \<and> sorted zs \<and> distinct zs
           \<and> set zs = {z'. \<exists>la lo. map_of (build_zip_coords demo_table) z' = Some (la, lo)
                                 \<and> haversine 0 0 la lo \<le> real_of_int 50}"
    by blast
  ultimately show ?thesis by blast
qed

subsection \<open>C5: the identifiers after the handling of duplicates\<close>

text \<open>
  C5 says that after the duplicate handling the values of \<open>dealer_id\<close> are pairwise
  distinct. The loop appends \<open>_2\<close>, \<open>_3\<close>, ... to the later occurrences of an identifier
  that occurs more than once, and does not look whether the suffixed identifier is the
  identifier of another row. On the three rows named \<open>A 2\<close>, \<open>A\<close>, \<open>A\<close> the generated
  identifiers are \<open>a_2\<close>, \<open>a\<close>, \<open>a\<close>; the second \<open>a\<close> becomes \<open>a_2\<close>, which the first
  row has already: the output holds \<open>a_2\<close> twice.
\<close>

theorem dedup_suffix_collision:
  "map dealer_id (process_excel [demo_row ''A 2'' Zip_na, demo_row ''A'' Zip_na,
                                 demo_row ''A'' Zip_na] [])
     = [''a_2'', ''a'', ''a_2'']
   \<and> \<not> distinct (map dealer_id (process_excel [demo_row ''A 2'' Zip_na, demo_row ''A'' Zip_na,
                                                demo_row ''A'' Zip_na] []))"
proof -
  have "map dealer_id (process_excel [demo_row ''A 2'' Zip_na, demo_row ''A'' Zip_na,
                                 demo_row ''A'' Zip_na] [])
     = [''a_2'', ''a'', ''a_2'']"
    by code_simp
  then show ?thesis by simp
qed

subsection \<open>C6: the shape of a generated identifier\<close>

text \<open>
  C6 says that a generated identifier has no trailing underscore. The underscores are
  stripped before the cut to 50 characters, so the cut can end on an underscore: the
  name of 49 letters \<open>a\<close>, a space and the letter \<open>b\<close> gives the 51 characters
  \<open>a...a_b\<close>, cut to \<open>a...a_\<close>.
\<close>

theorem dealer_id_trailing_underscore:
  "generate_dealer_id ''aaaaaaaaaaaaaaaaaaaaaaaaaaaaaaaaaaaaaaaaaaaaaaaaa b''
     = ''aaaaaaaaaaaaaaaaaaaaaaaaaaaaaaaaaaaaaaaaaaaaaaaaa_''
   \<and> last (generate_dealer_id ''aaaaaaaaaaaaaaaaaaaaaaaaaaaaaaaaaaaaaaaaaaaaaaaaa b'')
     = CHR ''_''"
proof -
  have "generate_dealer_id ''aaaaaaaaaaaaaaaaaaaaaaaaaaaaaaaaaaaaaaaaaaaaaaaaa b''
     = ''aaaaaaaaaaaaaaaaaaaaaaaaaaaaaaaaaaaaaaaaaaaaaaaaa_''"
    by code_simp
  then show ?thesis by simp
qed

subsection \<open>C7: the elements of \<open>coverage_zips\<close>\<close>




subsection \<open>C8: the normalization of a ZIP is idempotent\<close>

text \<open>
  C8. A string of exactly five digit characters is returned unchanged by the Expander's
  normalization (strip, drop the non-digits if there are any, pad with zeros and cut to
  five characters). Every result of the normalization is such a string, so normalizing
  twice is normalizing once.
\<close>

theorem normalize_zip_idempotent:
  "(five_digits z \<longrightarrow> normalize_zip z = z)
   \<and> normalize_zip (normalize_zip s) = normalize_zip s"
proof -
  have "five_digits (normalize_zip s)"
    using normalize_zip_shape[of s] by (simp add: five_digits_def)
  then show ?thesis by (simp add: normalize_zip_fixed)
qed

theorem normalize_zip_idempotent_witness:
  "five_digits ''94105'' \<and> normalize_zip ''94105'' = ''94105''
   \<and> normalize_zip (normalize_zip ''94105-1234'') = normalize_zip ''94105-1234''"
proof -
  have h: "five_digits ''94105''" by (simp add: five_digits_def isdigit_chr_def)
  show ?thesis
    using h normalize_zip_idempotent[of "''94105''" "''94105-1234''"] by blast
qed

subsection \<open>C9: an imported record through the Expander at radius 0\<close>

text \<open>
  C9 as amended. Take the record the Importer makes of row \<open>j\<close> and the record the
  Expander, run at radius 0 on the Importer's output, writes at position \<open>j\<close>. If the
  cleaned ZIP of the row is present and its normalization is a key of the reference
  table, with coordinates \<open>(cla, clo)\<close>, then \<open>coverage_zips\<close> is the sorted list,
  without repetition, of the keys of the table at distance at most 0 from \<open>(cla, clo)\<close>; the normalized ZIP is in
  it, and it is the one-element list of the normalized ZIP when every other key of the
  table lies at a positive distance. If the ZIP cell is empty, the record is unchanged.
  If the cleaned ZIP is a string of exactly five digits that is not a key of the table,
  the record is unchanged.
\<close>

theorem radius_zero_round_trip:
  assumes "j < length df_112"
  shows "(\<forall>z cla clo.
            clean_zip (col_zip (df_112 ! j)) = Some z \<and> z \<noteq> []
            \<and> map_of (build_zip_coords rows) (normalize_zip z) = Some (cla, clo) \<longrightarrow>
            sorted (coverage_zips
                     (fst (expand_coverage 0 rows (process_excel df_112 df_top50)) ! j))
            \<and> distinct (coverage_zips
                     (fst (expand_coverage 0 rows (process_excel df_112 df_top50)) ! j))
            \<and> set (coverage_zips
                     (fst (expand_coverage 0 rows (process_excel df_112 df_top50)) ! j))
                = {z'. \<exists>la lo. map_of (build_zip_coords rows) z' = Some (la, lo)
                               \<and> haversine cla clo la lo \<le> 0}
            \<and> normalize_zip z
                \<in> set (coverage_zips
                         (fst (expand_coverage 0 rows (process_excel df_112 df_top50)) ! j))
            \<and> ((\<forall>z' la lo. map_of (build_zip_coords rows) z' = Some (la, lo)
                              \<and> z' \<noteq> normalize_zip z \<longrightarrow> 0 < haversine cla clo la lo) \<longrightarrow>
                 coverage_zips
                   (fst (expand_coverage 0 rows (process_excel df_112 df_top50)) ! j)
                 = [normalize_zip z]))
       \<and> (clean_zip (col_zip (df_112 ! j)) = None \<longrightarrow>
            fst (expand_coverage 0 rows (process_excel df_112 df_top50)) ! j
            = process_excel df_112 df_top50 ! j)
       \<and> (\<forall>z. clean_zip (col_zip (df_112 ! j)) = Some z \<and> five_digits z
               \<and> map_of (build_zip_coords rows) z = None \<longrightarrow>
            fst (expand_coverage 0 rows (process_excel df_112 df_top50)) ! j
            = process_excel df_112 df_top50 ! j)"
proof -
  let ?zc = "build_zip_coords rows"
  let ?d = "process_excel df_112 df_top50 ! j"
  let ?d' = "fst (expand_coverage 0 rows (process_excel df_112 df_top50)) ! j"
  have gz: "get_zip ?d = clean_zip (col_zip (df_112 ! j))"
    and cz: "coverage_zips ?d
             = (case clean_zip (col_zip (df_112 ! j)) of Some z \<Rightarrow> [z] | None \<Rightarrow> [])"
    using assms by (simp_all add: process_excel_fields)
  have d': "?d' = snd (expand_dealer 0 ?zc init_stats ?d)"
    using assms by (simp add: expand_coverage_nth length_process_excel)
  have found: "sorted (coverage_zips ?d')
            \<and> distinct (coverage_zips ?d')
            \<and> set (coverage_zips ?d')
                = {z'. \<exists>la lo. map_of ?zc z' = Some (la, lo) \<and> haversine cla clo la lo \<le> 0}
            \<and> normalize_zip z \<in> set (coverage_zips ?d')
            \<and> ((\<forall>z' la lo. map_of ?zc z' = Some (la, lo)
                              \<and> z' \<noteq> normalize_zip z \<longrightarrow> 0 < haversine cla clo la lo) \<longrightarrow>
                 coverage_zips ?d' = [normalize_zip z])"
    if a: "clean_zip (col_zip (df_112 ! j)) = Some z \<and> z \<noteq> []
            \<and> map_of ?zc (normalize_zip z) = Some (cla, clo)" for z cla clo
  proof -
    have c: "coverage_zips ?d' = nearby_zips 0 ?zc cla clo"
      using a gz by (simp add: d' expand_dealer_found)
    have s: "set (nearby_zips 0 ?zc cla clo)
             = {z'. \<exists>la lo. map_of ?zc z' = Some (la, lo) \<and> haversine cla clo la lo \<le> 0}"
      using set_nearby_zips[OF distinct_build_zip_coords, of 0 rows cla clo] by simp
    have m: "normalize_zip z \<in> set (nearby_zips 0 ?zc cla clo)"
      using a by (simp add: s haversine_self)
    have one: "nearby_zips 0 ?zc cla clo = [normalize_zip z]"
      if u: "\<forall>z' la lo. map_of ?zc z' = Some (la, lo) \<and> z' \<noteq> normalize_zip z
                         \<longrightarrow> 0 < haversine cla clo la lo"
    proof (rule singleton_list)
      show "distinct (nearby_zips 0 ?zc cla clo)"
        by (rule distinct_nearby_zips) (rule distinct_build_zip_coords)
      show "set (nearby_zips 0 ?zc cla clo) = {normalize_zip z}"
      proof
        show "set (nearby_zips 0 ?zc cla clo) \<subseteq> {normalize_zip z}"
          unfolding s using u by force
        show "{normalize_zip z} \<subseteq> set (nearby_zips 0 ?zc cla clo)"
          using m by simp
      qed
    qed
    have dist: "distinct (nearby_zips 0 ?zc cla clo)"
      by (rule distinct_nearby_zips) (rule distinct_build_zip_coords)
    show ?thesis
      using s m one dist by (simp add: c sorted_nearby_zips)
  qed
  have none: "?d' = ?d" if a: "clean_zip (col_zip (df_112 ! j)) = None"
  proof -
    have "?d' = ?d\<lparr>coverage_zips := []\<rparr>"
      using a gz by (simp add: d' expand_dealer_no_zip)
    moreover have "coverage_zips ?d = []" using a cz by simp
    ultimately show ?thesis by (simp add: record_same_coverage)
  qed
  have missing: "?d' = ?d"
    if a: "clean_zip (col_zip (df_112 ! j)) = Some z \<and> five_digits z \<and> map_of ?zc z = None"
    for z
  proof -
    have n: "normalize_zip z = z" using a by (simp add: normalize_zip_fixed)
    have "z \<noteq> []" using a by (auto simp: five_digits_def)
    then have "?d' = ?d\<lparr>coverage_zips := [z]\<rparr>"
      using a gz n expand_dealer_not_found[of ?d z ?zc 0 init_stats] by (simp add: d')
    moreover have "coverage_zips ?d = [z]" using a cz by simp
    ultimately show ?thesis by (simp add: record_same_coverage)
  qed
  show ?thesis
    using found none missing by blast
qed

theorem radius_zero_round_trip_witness:
  "coverage_zips (fst (expand_coverage 0 demo_table (process_excel demo_sheet [])) ! 4)
     = [normalize_zip ''00004'']
   \<and> sorted (coverage_zips (fst (expand_coverage 0 demo_table (process_excel demo_sheet [])) ! 0))
   \<and> normalize_zip ''00001''
       \<in> set (coverage_zips (fst (expand_coverage 0 demo_table (process_excel demo_sheet [])) ! 0))
   \<and> fst (expand_coverage 0 demo_table (process_excel demo_sheet [])) ! 2
       = process_excel demo_sheet [] ! 2
   \<and> fst (expand_coverage 0 demo_table (process_excel demo_sheet [])) ! 1
       = process_excel demo_sheet [] ! 1"
proof -
  have l: "0 < length demo_sheet" "1 < length demo_sheet" "2 < length demo_sheet"
    "4 < length demo_sheet"
    by (simp_all add: demo_sheet_length)
  have a4: "clean_zip (col_zip (demo_sheet ! 4)) = Some ''00004'' \<and> ''00004'' \<noteq> []
            \<and> map_of (build_zip_coords demo_table) (normalize_zip ''00004'') = Some (0, 180)"
    using demo_clean_zip(5) by (simp add: demo_zip_coords demo_normalize)
  have u4: "\<forall>z' la lo. map_of (build_zip_coords demo_table) z' = Some (la, lo)
                       \<and> z' \<noteq> normalize_zip ''00004'' \<longrightarrow> 0 < haversine 0 180 la lo"
    using pi_gt_zero
    by (auto simp: demo_zip_coords demo_normalize haversine_antipode_back split: if_splits)
  have a0: "clean_zip (col_zip (demo_sheet ! 0)) = Some ''00001'' \<and> ''00001'' \<noteq> []
            \<and> map_of (build_zip_coords demo_table) (normalize_zip ''00001'') = Some (0, 0)"
    using demo_clean_zip(1) by (simp add: demo_zip_coords demo_normalize)
  have a2: "clean_zip (col_zip (demo_sheet ! 2)) = None"
    by (rule demo_clean_zip)
  have a1: "clean_zip (col_zip (demo_sheet ! 1)) = Some ''00009'' \<and> five_digits ''00009''
            \<and> map_of (build_zip_coords demo_table) ''00009'' = None"
    using demo_clean_zip(2) by (simp add: demo_zip_coords five_digits_def isdigit_chr_def)
  from radius_zero_round_trip[OF l(4), of demo_table "[]"] a4 u4
  have "coverage_zips (fst (expand_coverage 0 demo_table (process_excel demo_sheet [])) ! 4)
     = [normalize_zip ''00004'']"
    by blast
  moreover from radius_zero_round_trip[OF l(1), of demo_table "[]"] a0
  have "sorted (coverage_zips
                 (fst (expand_coverage 0 demo_table (process_excel demo_sheet [])) ! 0))
        \<and> normalize_zip ''00001''
            \<in> set (coverage_zips
                     (fst (expand_coverage 0 demo_table (process_excel demo_sheet [])) ! 0))"
    by blast
  moreover from radius_zero_round_trip[OF l(3), of demo_table "[]"] a2
  have "fst (expand_coverage 0 demo_table (process_excel demo_sheet [])) ! 2
       = process_excel demo_sheet [] ! 2"
    by blast
  moreover from radius_zero_round_trip[OF l(2), of demo_table "[]"] a1
  have "fst (expand_coverage 0 demo_table (process_excel demo_sheet [])) ! 1
       = process_excel demo_sheet [] ! 1"
    by blast
  ultimately show ?thesis by blast
qed

text \<open>
  The claim as it was stated fails in both halves on the example data. The ZIP \<open>00001\<close>
  resolves, and \<open>00002\<close> has the same coordinates in the table: at radius 0 the coverage
  is \<open>[00001, 00002]\<close>, not the one-element list. The ZIP text \<open>ABC\<close> is passed through
  by the Importer and does not resolve; the Expander writes its normalization \<open>00000\<close>
  into \<open>coverage_zips\<close>, so the record changes.
\<close>

theorem radius_zero_not_round_trip:
  "get_zip (process_excel demo_sheet [] ! 0) = Some ''00001''
   \<and> map_of (build_zip_coords demo_table) (normalize_zip ''00001'') = Some (0, 0)
   \<and> coverage_zips (fst (expand_coverage 0 demo_table (process_excel demo_sheet [])) ! 0)
       = [''00001'', ''00002'']
   \<and> get_zip (process_excel demo_sheet [] ! 3) = Some ''ABC''
   \<and> map_of (build_zip_coords demo_table) (normalize_zip ''ABC'') = None
   \<and> coverage_zips (process_excel demo_sheet [] ! 3) = [''ABC'']
   \<and> coverage_zips (fst (expand_coverage 0 demo_table (process_excel demo_sheet [])) ! 3)
       = [''00000'']
   \<and> fst (expand_coverage 0 demo_table (process_excel demo_sheet [])) ! 3
       \<noteq> process_excel demo_sheet [] ! 3"
proof -
  have r0: "map_of (build_zip_coords demo_table) (normalize_zip ''00001'') = Some (0, 0)"
    by (simp add: demo_zip_coords demo_normalize)
  have c0: "coverage_zips (fst (expand_coverage 0 demo_table (process_excel demo_sheet [])) ! 0)
       = [''00001'', ''00002'']"
    using demo_get_zip(1) r0
    by (simp add: expand_coverage_nth demo_length expand_dealer_found demo_nearby_0)
  have r3: "map_of (build_zip_coords demo_table) (normalize_zip ''ABC'') = None"
    by (simp add: demo_zip_coords demo_normalize)
  have b3: "coverage_zips (process_excel demo_sheet [] ! 3) = [''ABC'']"
    using demo_clean_zip(4) by (simp add: process_excel_fields(2) demo_sheet_length)
  have c3: "coverage_zips (fst (expand_coverage 0 demo_table (process_excel demo_sheet [])) ! 3)
       = [''00000'']"
    using demo_get_zip(4) r3
    by (simp add: expand_coverage_nth demo_length expand_dealer_not_found demo_normalize)
  have "fst (expand_coverage 0 demo_table (process_excel demo_sheet [])) ! 3
       \<noteq> process_excel demo_sheet [] ! 3"
    using b3 c3 by auto
  then show ?thesis
    using demo_get_zip(1) demo_get_zip(4) r0 c0 r3 b3 c3 by simp
qed

subsection \<open>C10: every imported dealer is delivered by email\<close>

text \<open>
  C10. Every dealer record that the Importer produces has the field
  \<open>lead_delivery_method\<close> with the value \<open>email\<close>, also after the handling of duplicate
  identifiers.
\<close>

theorem lead_delivery_method_email:
  assumes "d \<in> set (process_excel df_112 df_top50)"
  shows "lead_delivery_method d = ''email''"
proof -
  from assms obtain j where "j < length (process_excel df_112 df_top50)"
    and "process_excel df_112 df_top50 ! j = d"
    by (auto simp: in_set_conv_nth)
  then show ?thesis
    using process_excel_fields(4)[of j df_112 df_top50] by (simp add: length_process_excel)
qed

theorem lead_delivery_method_email_witness:
  "process_excel demo_sheet [] ! 0 \<in> set (process_excel demo_sheet [])
   \<and> lead_delivery_method (process_excel demo_sheet [] ! 0) = ''email''"
proof -
  have h: "process_excel demo_sheet [] ! 0 \<in> set (process_excel demo_sheet [])"
    by (rule nth_mem) (simp add: demo_length)
  show ?thesis using h lead_delivery_method_email[OF h] by blast
qed

end

